theory Spec2Isabelle
  imports Complex_Main
begin

section \<open>DU Improved (duim.py): a shallow embedding\<close>

text \<open>
  The program runs \<^verbatim>\<open>du -d 1\<close> on a target directory, parses the output lines into a
  dictionary from path to size in kilobytes, removes the target's own entry (the total),
  sorts the remaining entries by size, descending, and prints one row per entry with a
  percentage, a bar graph and the size, followed by a total line.

  Modelling conventions.
  \<^item> A Python \<^verbatim>\<open>str\<close> is a \<^typ>\<open>string\<close>; a \<^typ>\<open>char\<close> stands for a code point below
    256. Code points from 256 on (among them the decimal digits and the white space of
    other scripts, which \<^verbatim>\<open>int()\<close> and \<^verbatim>\<open>strip()\<close> recognise) are outside the model.
  \<^item> A Python \<^verbatim>\<open>int\<close> is an \<^typ>\<open>int\<close>.
  \<^item> A Python \<^verbatim>\<open>float\<close> is the rational number it denotes, and float arithmetic is
    exact: the rounding error and the overflow of binary64 are outside the model. The
    roundings the program asks for itself (\<^verbatim>\<open>round\<close>, the precision of a format
    specification) are modelled, ties going to the even neighbour as in Python.
  \<^item> A \<^verbatim>\<open>dict\<close> is an association list with distinct keys in insertion order, the order
    in which Python iterates over it.
  \<^item> An exception is a value: a function that may raise returns \<open>error + 'a\<close>.
  \<^item> The file system and the \<^verbatim>\<open>du\<close> process are inputs of \<open>main\<close>; what the program
    prints and how it ends is the value \<open>main\<close> returns.
\<close>

datatype error = ValueError | ZeroDivisionError

subsection \<open>Strings: \<^verbatim>\<open>split\<close>, \<^verbatim>\<open>strip\<close>, \<^verbatim>\<open>int\<close>, \<^verbatim>\<open>str\<close>\<close>

definition TAB :: char where
  "TAB = CHR 0x09"

definition NEWLINE :: char where
  "NEWLINE = CHR 0x0A"

text \<open>\<^verbatim>\<open>s.split(sep)\<close> for a separator of one character: one more field than separators.\<close>

fun split_on :: "char \<Rightarrow> string \<Rightarrow> string list" where
  "split_on sep [] = [[]]"
| "split_on sep (c # cs) =
     (if c = sep then [] # split_on sep cs
      else (case split_on sep cs of
              [] \<Rightarrow> [[c]]
            | p # ps \<Rightarrow> (c # p) # ps))"

text \<open>The white space of \<^verbatim>\<open>str.strip()\<close> (\<^verbatim>\<open>str.isspace\<close>), below code point 256.\<close>

definition str_isspace :: "char \<Rightarrow> bool" where
  "str_isspace c \<longleftrightarrow>
     c \<in> set [CHR 0x09, CHR 0x0A, CHR 0x0B, CHR 0x0C, CHR 0x0D,
               CHR 0x1C, CHR 0x1D, CHR 0x1E, CHR 0x1F, CHR 0x20, CHR 0x85, CHR 0xA0]"

definition strip :: "string \<Rightarrow> string" where
  "strip s = rev (dropWhile str_isspace (rev (dropWhile str_isspace s)))"

text \<open>
  The white space \<^verbatim>\<open>int()\<close> skips around a literal: the ASCII white space of C, and the
  Unicode white space from code point 127 on (the separators \<^verbatim>\<open>\x1c\<close> to \<^verbatim>\<open>\x1f\<close> are
  not skipped).
\<close>

definition int_isspace :: "char \<Rightarrow> bool" where
  "int_isspace c \<longleftrightarrow>
     c \<in> set [CHR 0x09, CHR 0x0A, CHR 0x0B, CHR 0x0C, CHR 0x0D, CHR 0x20, CHR 0x85, CHR 0xA0]"

text \<open>The value of a decimal digit; \<open>None\<close> for any other character.\<close>

definition digit_of :: "char \<Rightarrow> nat option" where
  "digit_of c = map_of (zip ''0123456789'' [0 ..< 10]) c"

text \<open>
  The digits of a base-10 literal: at least one digit, single underscores allowed between
  digits only. \<open>prev\<close> tells whether the character before was a digit.
\<close>

fun scan_digits :: "nat \<Rightarrow> bool \<Rightarrow> string \<Rightarrow> nat option" where
  "scan_digits acc prev [] = (if prev then Some acc else None)"
| "scan_digits acc prev (c # cs) =
     (if c = CHR ''_'' then (if prev then scan_digits acc False cs else None)
      else (case digit_of c of
              None \<Rightarrow> None
            | Some d \<Rightarrow> scan_digits (10 * acc + d) True cs))"

text \<open>\<^verbatim>\<open>int(s)\<close>: \<open>None\<close> is the \<^verbatim>\<open>ValueError\<close> of a string that is no integer literal.\<close>

definition py_int :: "string \<Rightarrow> int option" where
  "py_int s =
     (let t = rev (dropWhile int_isspace (rev (dropWhile int_isspace s)));
          neg = (t \<noteq> [] \<and> hd t = CHR ''-'');
          body = (if t \<noteq> [] \<and> (hd t = CHR ''-'' \<or> hd t = CHR ''+'') then tl t else t)
      in (case scan_digits 0 False body of
            None \<Rightarrow> None
          | Some n \<Rightarrow> Some (if neg then - int n else int n)))"

definition digit_chr :: "nat \<Rightarrow> char" where
  "digit_chr d = ''0123456789'' ! d"

fun str_nat :: "nat \<Rightarrow> string" where
  "str_nat n = (if n < 10 then [digit_chr n] else str_nat (n div 10) @ [digit_chr (n mod 10)])"

declare str_nat.simps [simp del]

text \<open>\<^verbatim>\<open>str(i)\<close> of an integer.\<close>

definition str_int :: "int \<Rightarrow> string" where
  "str_int i = (if i < 0 then CHR ''-'' # str_nat (nat (- i)) else str_nat (nat i))"

text \<open>Right alignment in a field: \<^verbatim>\<open>{s:>w}\<close>.\<close>

definition rjust :: "nat \<Rightarrow> string \<Rightarrow> string" where
  "rjust w s = replicate (w - length s) CHR '' '' @ s"

subsection \<open>Numbers: \<^verbatim>\<open>round\<close>, true division, fixed-point formats\<close>

text \<open>\<^verbatim>\<open>round(x)\<close>: the nearest integer, a tie going to the even one.\<close>

definition py_round :: "rat \<Rightarrow> int" where
  "py_round x =
     (let f = \<lfloor>x\<rfloor>; d = x - of_int f
      in if d < 1 / 2 then f
         else if 1 / 2 < d then f + 1
         else if even f then f else f + 1)"

text \<open>\<^verbatim>\<open>a / b\<close> on integers.\<close>

definition truediv :: "int \<Rightarrow> int \<Rightarrow> error + rat" where
  "truediv a b = (if b = 0 then Inl ZeroDivisionError else Inr (of_int a / of_int b))"

text \<open>
  \<^verbatim>\<open>{x:.0f}\<close> and \<^verbatim>\<open>{x:.1f}\<close>: the sign, then the magnitude rounded to the precision
  (a negative value that rounds to zero keeps its sign).
\<close>

definition format_0f :: "rat \<Rightarrow> string" where
  "format_0f x = (if x < 0 then ''-'' else '''') @ str_nat (nat (py_round \<bar>x\<bar>))"

definition format_1f :: "rat \<Rightarrow> string" where
  "format_1f x =
     (let q = nat (py_round (\<bar>x\<bar> * 10))
      in (if x < 0 then ''-'' else '''') @ str_nat (q div 10) @ ''.'' @ [digit_chr (q mod 10)])"

subsection \<open>Dictionaries in insertion order\<close>

type_synonym dir_dict = "(string \<times> int) list"

text \<open>\<^verbatim>\<open>d[k] = v\<close>: a key already present keeps its place.\<close>

fun dict_setitem :: "('k \<times> 'v) list \<Rightarrow> 'k \<Rightarrow> 'v \<Rightarrow> ('k \<times> 'v) list" where
  "dict_setitem [] k v = [(k, v)]"
| "dict_setitem ((k', v') # d) k v =
     (if k' = k then (k, v) # d else (k', v') # dict_setitem d k v)"

text \<open>\<^verbatim>\<open>d.pop(k, default)\<close>: the value removed (or the default) and the dictionary left.\<close>

fun dict_pop :: "('k \<times> 'v) list \<Rightarrow> 'k \<Rightarrow> 'v \<Rightarrow> 'v \<times> ('k \<times> 'v) list" where
  "dict_pop [] k dflt = (dflt, [])"
| "dict_pop ((k', v') # d) k dflt =
     (if k' = k then (v', d)
      else (case dict_pop d k dflt of (v, d') \<Rightarrow> (v, (k', v') # d')))"

text \<open>
  \<^verbatim>\<open>sorted(items, key=..., reverse=True)\<close>: Python sorts stably, and keeps a reverse
  sort stable by reversing the list before and after an ascending stable sort.
\<close>

definition sorted_reverse :: "('a \<Rightarrow> int) \<Rightarrow> 'a list \<Rightarrow> 'a list" where
  "sorted_reverse key xs = rev (sort_key key (rev xs))"

subsection \<open>The functions of duim.py\<close>

text \<open>
  \<^verbatim>\<open>call_du_sub\<close>. The process is the argument: \<open>Inl e\<close> when starting it or talking to it
  raised the exception with message \<open>e\<close>, \<open>Inr out\<close> when it wrote \<open>out\<close> on its standard
  output. The result is \<open>Inl\<close> the line printed on standard error before \<^verbatim>\<open>sys.exit(1)\<close>,
  or \<open>Inr\<close> the stripped non-blank lines.
\<close>

definition call_du_sub :: "string + string \<Rightarrow> string + string list" where
  "call_du_sub du =
     (case du of
        Inl e \<Rightarrow> Inl (''Error: '' @ e)
      | Inr out \<Rightarrow> Inr (map strip (filter (\<lambda>line. strip line \<noteq> []) (split_on NEWLINE out))))"

definition percent_to_graph :: "rat \<Rightarrow> int \<Rightarrow> error + string" where
  "percent_to_graph percent total_chars =
     (if \<not> (0 \<le> percent \<and> percent \<le> 100) then Inl ValueError
      else let filled_length = py_round ((percent / 100) * of_int total_chars)
           in Inr (replicate (nat filled_length) CHR ''=''
                   @ replicate (nat (total_chars - filled_length)) CHR '' ''))"

text \<open>The loop of \<^verbatim>\<open>create_dir_dict\<close>, the dictionary built so far as its state.\<close>

fun dir_dict_loop :: "dir_dict \<Rightarrow> string list \<Rightarrow> error + dir_dict" where
  "dir_dict_loop d [] = Inr d"
| "dir_dict_loop d (line # rest) =
     (case split_on TAB line of
        [sz, directory] \<Rightarrow>
          (case py_int sz of
             None \<Rightarrow> Inl ValueError
           | Some n \<Rightarrow> dir_dict_loop (dict_setitem d directory n) rest)
      | _ \<Rightarrow> dir_dict_loop d rest)"

definition create_dir_dict :: "string list \<Rightarrow> error + dir_dict" where
  "create_dir_dict du_output = dir_dict_loop [] du_output"

text \<open>
  \<^verbatim>\<open>human_readable\<close>: the loop over the units, leaving at the first unit under which the
  value is below 1024; \<^verbatim>\<open>P\<close> after the last one.
\<close>

fun human_readable_loop :: "rat \<Rightarrow> string list \<Rightarrow> string" where
  "human_readable_loop size_bytes [] = format_1f size_bytes @ '' P''"
| "human_readable_loop size_bytes (u # units) =
     (if size_bytes < 1024 then format_1f size_bytes @ '' '' @ u
      else human_readable_loop (size_bytes / 1024) units)"

definition human_readable :: "int \<Rightarrow> string" where
  "human_readable size_kb =
     human_readable_loop (of_int (size_kb * 1024)) [''B'', ''K'', ''M'', ''G'', ''T'']"

subsection \<open>\<^verbatim>\<open>main\<close>\<close>

text \<open>The parsed command line.\<close>

record args =
  target :: string
  human_readable_flag :: bool
  length_arg :: int

text \<open>
  How a run ends: \<^verbatim>\<open>main\<close> returns (exit status 0), \<^verbatim>\<open>sys.exit\<close> is called, or an
  exception nobody catches ends the process. A run is its ending and the lines it has
  printed on standard output and on standard error (the traceback of an uncaught
  exception is not among them).
\<close>

datatype ending = Returned | SysExit int | Uncaught error

record run =
  ending :: ending
  stdout :: "string list"
  stderr :: "string list"

text \<open>The percentage of a row (line 120).\<close>

definition percent_of :: "int \<Rightarrow> int \<Rightarrow> error + rat" where
  "percent_of sz total_size =
     (if total_size > 0
      then (case truediv sz total_size of Inl e \<Rightarrow> Inl e | Inr q \<Rightarrow> Inr (q * 100))
      else Inr 0)"

text \<open>The body of the loop over the sorted entries (lines 120 to 123): the line printed.\<close>

definition report_line :: "args \<Rightarrow> int \<Rightarrow> string \<Rightarrow> int \<Rightarrow> error + string" where
  "report_line a total_size directory sz =
     (case percent_of sz total_size of
        Inl e \<Rightarrow> Inl e
      | Inr percent \<Rightarrow>
          (case percent_to_graph percent (length_arg a) of
             Inl e \<Rightarrow> Inl e
           | Inr bar \<Rightarrow>
               let size_str = (if human_readable_flag a then human_readable sz
                               else str_int sz @ ''K'')
               in Inr (rjust 3 (format_0f percent) @ '' % ['' @ bar @ ''] ''
                       @ rjust 8 size_str @ ''  '' @ directory)))"

text \<open>
  The loop itself: the lines printed so far are the state; an exception leaves the loop
  with the lines printed before it.
\<close>

fun print_rows :: "args \<Rightarrow> int \<Rightarrow> dir_dict \<Rightarrow> string list \<Rightarrow> error option \<times> string list" where
  "print_rows a total_size [] out = (None, out)"
| "print_rows a total_size ((directory, sz) # rest) out =
     (case report_line a total_size directory sz of
        Inl e \<Rightarrow> (Some e, out)
      | Inr line \<Rightarrow> print_rows a total_size rest (out @ [line]))"

text \<open>\<^verbatim>\<open>main\<close> from line 104 on, once the dictionary is built.\<close>

definition main_report :: "args \<Rightarrow> dir_dict \<Rightarrow> run" where
  "main_report a dir_dict =
     (if dir_dict = []
      then \<lparr>ending = SysExit 0, stdout = [], stderr = [''No subdirectories found.'']\<rparr>
      else (case dict_pop dir_dict (target a) 0 of
              (total_size, remaining) \<Rightarrow>
                let sorted_dirs = sorted_reverse snd remaining
                in (case print_rows a total_size sorted_dirs [] of
                      (Some e, out) \<Rightarrow> \<lparr>ending = Uncaught e, stdout = out, stderr = []\<rparr>
                    | (None, out) \<Rightarrow>
                        let total_str = (if human_readable_flag a then human_readable total_size
                                         else str_int total_size @ ''K'')
                        in \<lparr>ending = Returned,
                            stdout = out @ [''Total: '' @ total_str @ ''   '' @ target a],
                            stderr = []\<rparr>)))"

text \<open>
  \<^verbatim>\<open>main\<close>. \<open>isdir\<close> is what \<^verbatim>\<open>os.path.isdir\<close> answers for the target, \<open>du\<close> what the
  \<^verbatim>\<open>du\<close> process does (see \<open>call_du_sub\<close>).
\<close>

definition main :: "args \<Rightarrow> bool \<Rightarrow> string + string \<Rightarrow> run" where
  "main a isdir du =
     (if \<not> isdir
      then \<lparr>ending = SysExit 1, stdout = [],
            stderr = [''Error: '' @ target a @ '' is not a valid directory'']\<rparr>
      else (case call_du_sub du of
              Inl msg \<Rightarrow> \<lparr>ending = SysExit 1, stdout = [], stderr = [msg]\<rparr>
            | Inr du_output \<Rightarrow>
                (case create_dir_dict du_output of
                   Inl e \<Rightarrow> \<lparr>ending = Uncaught e, stdout = [], stderr = []\<rparr>
                 | Inr dir_dict \<Rightarrow> main_report a dir_dict)))"

subsection \<open>A notion for the statements\<close>

text \<open>
  The paths named by a scan output: the second fields of its lines of two tab-separated
  fields, in the order of the lines. It states in which order \<^verbatim>\<open>create_dir_dict\<close> inserts
  the keys.
\<close>

definition scan_paths :: "string list \<Rightarrow> string list" where
  "scan_paths du_output =
     concat (map (\<lambda>line. case split_on TAB line of
                            [sz, directory] \<Rightarrow> [directory]
                          | _ \<Rightarrow> []) du_output)"

section \<open>Properties\<close>

subsection \<open>The parser: \<^verbatim>\<open>create_dir_dict\<close>\<close>

lemma set_strip_subset: "set (rev (dropWhile P (rev (dropWhile P s)))) \<subseteq> set s"
proof -
  have "set (dropWhile P (rev (dropWhile P s))) \<subseteq> set (rev (dropWhile P s))"
    by (rule set_dropWhileD[THEN subsetI])
  also have "\<dots> \<subseteq> set s" using set_dropWhileD[of _ P s] by auto
  finally show ?thesis by simp
qed

lemma py_int_nonneg:
  assumes "py_int s = Some n" and "CHR ''-'' \<notin> set s"
  shows "0 \<le> n"
proof -
  let ?t = "rev (dropWhile int_isspace (rev (dropWhile int_isspace s)))"
  have "\<not> (?t \<noteq> [] \<and> hd ?t = CHR ''-'')"
  proof
    assume h: "?t \<noteq> [] \<and> hd ?t = CHR ''-''"
    then have "CHR ''-'' \<in> set ?t" using hd_in_set[of ?t] by metis
    with set_strip_subset[of int_isspace s] assms(2) show False by blast
  qed
  with assms(1) show ?thesis
    by (auto simp: py_int_def Let_def split: option.splits if_splits)
qed

lemma set_dict_setitem: "set (dict_setitem d k v) \<subseteq> insert (k, v) (set d)"
  by (induction d) (auto split: if_splits)

lemma dir_dict_loop_filter:
  "dir_dict_loop d (filter (\<lambda>line. length (split_on TAB line) = 2) du_output)
     = dir_dict_loop d du_output"
  by (induction du_output arbitrary: d) (auto split: list.splits option.splits)

lemma dir_dict_loop_entries:
  "dir_dict_loop d0 du_output = Inr d \<Longrightarrow> (p, n) \<in> set d \<Longrightarrow>
   (p, n) \<in> set d0
   \<or> (\<exists>line\<in>set du_output. \<exists>sz. split_on TAB line = [sz, p] \<and> py_int sz = Some n)"
proof (induction du_output arbitrary: d0)
  case Nil
  then show ?case by simp
next
  case (Cons line rest)
  show ?case
  proof (cases "\<exists>sz directory. split_on TAB line = [sz, directory]")
    case True
    then obtain sz directory where sp: "split_on TAB line = [sz, directory]" by blast
    with Cons.prems(1) obtain m where m: "py_int sz = Some m"
      and run: "dir_dict_loop (dict_setitem d0 directory m) rest = Inr d"
      by (auto split: option.splits)
    from Cons.IH[OF run Cons.prems(2)] show ?thesis
    proof
      assume "(p, n) \<in> set (dict_setitem d0 directory m)"
      with set_dict_setitem[of d0 directory m]
      have "(p, n) = (directory, m) \<or> (p, n) \<in> set d0" by blast
      with sp m show ?thesis by auto
    next
      assume "\<exists>line\<in>set rest. \<exists>sz. split_on TAB line = [sz, p] \<and> py_int sz = Some n"
      then show ?thesis by auto
    qed
  next
    case False
    with Cons.prems(1) have run: "dir_dict_loop d0 rest = Inr d"
      by (auto split: list.splits)
    from Cons.IH[OF run Cons.prems(2)] show ?thesis by auto
  qed
qed

lemma dir_dict_loop_fails:
  "(\<exists>line\<in>set du_output. \<exists>sz directory.
       split_on TAB line = [sz, directory] \<and> py_int sz = None)
   \<Longrightarrow> dir_dict_loop d du_output = Inl ValueError"
proof (induction du_output arbitrary: d)
  case Nil
  then show ?case by simp
next
  case (Cons line rest)
  show ?case
  proof (cases "\<exists>sz directory. split_on TAB line = [sz, directory]")
    case True
    then obtain sz directory where sp: "split_on TAB line = [sz, directory]" by blast
    show ?thesis
    proof (cases "py_int sz")
      case None
      with sp show ?thesis by simp
    next
      case (Some m)
      with sp Cons.prems
      have "\<exists>line\<in>set rest. \<exists>sz directory.
              split_on TAB line = [sz, directory] \<and> py_int sz = None"
        by auto
      from Cons.IH[OF this] sp Some show ?thesis by simp
    qed
  next
    case False
    with Cons.prems
    have "\<exists>line\<in>set rest. \<exists>sz directory.
            split_on TAB line = [sz, directory] \<and> py_int sz = None"
      by auto
    from Cons.IH[OF this] False show ?thesis by (auto split: list.splits)
  qed
qed

lemma dir_dict_loop_succeeds:
  "\<not> (\<exists>line\<in>set du_output. \<exists>sz directory.
         split_on TAB line = [sz, directory] \<and> py_int sz = None)
   \<Longrightarrow> \<exists>d'. dir_dict_loop d du_output = Inr d'"
proof (induction du_output arbitrary: d)
  case Nil
  then show ?case by simp
next
  case (Cons line rest)
  then have rest: "\<not> (\<exists>line\<in>set rest. \<exists>sz directory.
                         split_on TAB line = [sz, directory] \<and> py_int sz = None)"
    by auto
  show ?case
  proof (cases "\<exists>sz directory. split_on TAB line = [sz, directory]")
    case True
    then obtain sz directory where sp: "split_on TAB line = [sz, directory]" by blast
    with Cons.prems obtain m where "py_int sz = Some m" by fastforce
    with sp Cons.IH[OF rest] show ?thesis by simp
  next
    case False
    with Cons.IH[OF rest, of d] show ?thesis by (auto split: list.splits)
  qed
qed

text \<open>
  C9. A line that does not split into exactly two tab-separated fields contributes nothing
  to the dictionary: deleting all such lines from the input changes neither the
  dictionary nor a failure, and every entry of the dictionary is the path and the parsed
  size of some two-field line of the input.
\<close>

theorem create_dir_dict_skips_malformed:
  "create_dir_dict (filter (\<lambda>line. length (split_on TAB line) = 2) du_output)
     = create_dir_dict du_output
   \<and> (\<forall>d. create_dir_dict du_output = Inr d \<longrightarrow>
          (\<forall>(p, n)\<in>set d. \<exists>line\<in>set du_output. \<exists>sz.
              split_on TAB line = [sz, p] \<and> py_int sz = Some n))"
proof -
  have "\<exists>line\<in>set du_output. \<exists>sz. split_on TAB line = [sz, p] \<and> py_int sz = Some n"
    if "create_dir_dict du_output = Inr d" and "(p, n) \<in> set d" for d p n
    using dir_dict_loop_entries[of "[]" du_output d p n] that
    by (simp add: create_dir_dict_def)
  then show ?thesis
    unfolding create_dir_dict_def dir_dict_loop_filter by blast
qed

theorem create_dir_dict_skips_malformed_witness:
  "create_dir_dict [''100'' @ [TAB] @ ''/a'', ''junk'', ''1'' @ [TAB] @ ''2'' @ [TAB] @ ''3'']
     = Inr [(''/a'', 100)]
   \<and> create_dir_dict [''100'' @ [TAB] @ ''/a''] = Inr [(''/a'', 100)]"
proof -
  have keep: "filter (\<lambda>line. length (split_on TAB line) = 2)
                [''100'' @ [TAB] @ ''/a'', ''junk'', ''1'' @ [TAB] @ ''2'' @ [TAB] @ ''3'']
              = [''100'' @ [TAB] @ ''/a'']"
    by (simp add: TAB_def)
  have run: "create_dir_dict [''100'' @ [TAB] @ ''/a''] = Inr [(''/a'', 100)]"
    by code_simp
  from create_dir_dict_skips_malformed
         [of "[''100'' @ [TAB] @ ''/a'', ''junk'', ''1'' @ [TAB] @ ''2'' @ [TAB] @ ''3'']"]
  show ?thesis
    unfolding keep run by simp
qed

text \<open>
  C5. The parser fails exactly on the inputs that hold a line of two tab-separated fields
  whose first field \<^verbatim>\<open>int()\<close> rejects: there \<^verbatim>\<open>create_dir_dict\<close> raises \<^verbatim>\<open>ValueError\<close>,
  which \<^verbatim>\<open>main\<close> does not catch, so the run ends with it and has printed nothing.
  On every other input the parser returns a dictionary, whatever the shape of the other
  lines.
\<close>

theorem create_dir_dict_fails_iff_bad_size:
  "(if \<exists>line\<in>set du_output. \<exists>sz directory.
         split_on TAB line = [sz, directory] \<and> py_int sz = None
    then create_dir_dict du_output = Inl ValueError
         \<and> (\<forall>a du. call_du_sub du = Inr du_output \<longrightarrow>
                main a True du = \<lparr>ending = Uncaught ValueError, stdout = [], stderr = []\<rparr>)
    else \<exists>d. create_dir_dict du_output = Inr d)"
  using dir_dict_loop_fails[of du_output "[]"] dir_dict_loop_succeeds[of du_output "[]"]
  by (simp add: create_dir_dict_def main_def)

theorem create_dir_dict_fails_iff_bad_size_witness:
  "create_dir_dict [''100'' @ [TAB] @ ''/a'', ''abc'' @ [TAB] @ ''/a/x''] = Inl ValueError
   \<and> (\<exists>d. create_dir_dict [''100'' @ [TAB] @ ''/a'', ''junk'', []] = Inr d)"
proof -
  have "split_on TAB (''abc'' @ [TAB] @ ''/a/x'') = [''abc'', ''/a/x'']"
    by code_simp
  moreover have "py_int ''abc'' = None"
    by code_simp
  ultimately have bad:
    "\<exists>line\<in>set [''100'' @ [TAB] @ ''/a'', ''abc'' @ [TAB] @ ''/a/x'']. \<exists>sz directory.
        split_on TAB line = [sz, directory] \<and> py_int sz = None"
    by simp
  have "py_int ''100'' = Some 100"
    by code_simp
  then have good:
    "\<not> (\<exists>line\<in>set [''100'' @ [TAB] @ ''/a'', ''junk'', []]. \<exists>sz directory.
          split_on TAB line = [sz, directory] \<and> py_int sz = None)"
    by (auto simp: TAB_def)
  from create_dir_dict_fails_iff_bad_size
         [of "[''100'' @ [TAB] @ ''/a'', ''abc'' @ [TAB] @ ''/a/x'']"]
       create_dir_dict_fails_iff_bad_size
         [of "[''100'' @ [TAB] @ ''/a'', ''junk'', []]"]
       bad good
  show ?thesis by presburger
qed

text \<open>
  C2, as stated, fails: \<^verbatim>\<open>int()\<close> accepts a minus sign, so the line \<^verbatim>\<open>-5<TAB>/a\<close> gives
  the entry \<^verbatim>\<open>/a\<close> the size \<open>-5\<close>.
\<close>

theorem create_dir_dict_negative_size:
  "create_dir_dict [''-5'' @ [TAB] @ ''/a''] = Inr [(''/a'', - 5)] \<and> (- 5 :: int) < 0"
  by code_simp

text \<open>
  C2, amended. When no size field (the first field of a line of two tab-separated fields)
  contains a minus sign, every size in the dictionary that \<^verbatim>\<open>create_dir_dict\<close> returns is
  a non-negative integer.
\<close>

theorem create_dir_dict_sizes_nonneg:
  assumes "create_dir_dict du_output = Inr d"
    and "\<forall>line\<in>set du_output. \<forall>sz directory.
           split_on TAB line = [sz, directory] \<longrightarrow> CHR ''-'' \<notin> set sz"
  shows "\<forall>(p, n)\<in>set d. 0 \<le> n"
proof (clarify)
  fix p n assume "(p, n) \<in> set d"
  with dir_dict_loop_entries[of "[]" du_output d p n] assms(1)
  obtain line sz where "line \<in> set du_output" "split_on TAB line = [sz, p]" "py_int sz = Some n"
    by (auto simp: create_dir_dict_def)
  with assms(2) py_int_nonneg[of sz n] show "0 \<le> n" by blast
qed

theorem create_dir_dict_sizes_nonneg_witness:
  "create_dir_dict [''100'' @ [TAB] @ ''/a'', ''7'' @ [TAB] @ ''/a/x'', ''junk'']
     = Inr [(''/a'', 100), (''/a/x'', 7)]
   \<and> list_all (\<lambda>(p, n). 0 \<le> n) [(''/a'', 100 :: int), (''/a/x'', 7)]"
proof -
  have run: "create_dir_dict [''100'' @ [TAB] @ ''/a'', ''7'' @ [TAB] @ ''/a/x'', ''junk'']
               = Inr [(''/a'', 100), (''/a/x'', 7)]"
    by code_simp
  have shape: "\<forall>line\<in>set [''100'' @ [TAB] @ ''/a'', ''7'' @ [TAB] @ ''/a/x'', ''junk''].
                 \<forall>sz directory. split_on TAB line = [sz, directory] \<longrightarrow> CHR ''-'' \<notin> set sz"
    by (simp add: TAB_def)
  from create_dir_dict_sizes_nonneg[OF run shape] run show ?thesis by simp
qed

subsection \<open>Rounding and the bar: \<^verbatim>\<open>percent_to_graph\<close>\<close>





subsection \<open>The size formatter: \<^verbatim>\<open>human_readable\<close>\<close>



text \<open>
  C10. \<^verbatim>\<open>human_readable(0)\<close> is \<^verbatim>\<open>"0.0 B"\<close>: zero kilobytes are zero bytes, below 1024
  under the first unit.
\<close>

theorem human_readable_zero: "human_readable 0 = ''0.0 B''"
  by code_simp

subsection \<open>The report: \<^verbatim>\<open>main\<close> from the dictionary on\<close>

lemma dict_pop_absent: "k \<notin> fst ` set d \<Longrightarrow> dict_pop d k v = (v, d)"
  by (induction d) (auto split: prod.splits)

lemma dict_pop_distinct:
  "distinct (map fst d) \<Longrightarrow> snd (dict_pop d k v) = filter (\<lambda>x. fst x \<noteq> k) d"
proof (induction d)
  case Nil
  then show ?case by simp
next
  case (Cons x d)
  obtain k' v' where x: "x = (k', v')" by (cases x)
  show ?case
  proof (cases "k' = k")
    case True
    with Cons.prems x have "k \<notin> fst ` set d" by auto
    then have "filter (\<lambda>x. fst x \<noteq> k) d = d" by (auto simp: filter_id_conv)
    with True x show ?thesis by simp
  next
    case False
    with Cons x show ?thesis by (cases "dict_pop d k v") auto
  qed
qed

lemma keys_dict_setitem:
  "map fst (dict_setitem d k v) = (if k \<in> fst ` set d then map fst d else map fst d @ [k])"
  by (induction d) (auto simp: image_iff split: if_splits)

lemma distinct_dict_setitem:
  "distinct (map fst d) \<Longrightarrow> distinct (map fst (dict_setitem d k v))"
  by (simp add: keys_dict_setitem)

lemma dir_dict_loop_distinct:
  "dir_dict_loop d0 du_output = Inr d \<Longrightarrow> distinct (map fst d0) \<Longrightarrow> distinct (map fst d)"
proof (induction du_output arbitrary: d0)
  case Nil
  then show ?case by simp
next
  case (Cons line rest)
  show ?case
  proof (cases "\<exists>sz directory. split_on TAB line = [sz, directory]")
    case True
    then obtain sz directory where sp: "split_on TAB line = [sz, directory]" by blast
    with Cons.prems(1) obtain m where "py_int sz = Some m"
      and run: "dir_dict_loop (dict_setitem d0 directory m) rest = Inr d"
      by (auto split: option.splits)
    from Cons.IH[OF run distinct_dict_setitem[OF Cons.prems(2)]] show ?thesis .
  next
    case False
    with Cons.prems(1) have "dir_dict_loop d0 rest = Inr d"
      by (auto split: list.splits)
    from Cons.IH[OF this Cons.prems(2)] show ?thesis .
  qed
qed

lemma create_dir_dict_distinct:
  "create_dir_dict du_output = Inr d \<Longrightarrow> distinct (map fst d)"
  using dir_dict_loop_distinct[of "[]" du_output d] by (simp add: create_dir_dict_def)

text \<open>
  The keys of the dictionary are the paths of the scan output, each at the place of its
  first occurrence.
\<close>

lemma first_occurrences_snoc:
  "rev (remdups (rev (xs @ [k])))
     = (if k \<in> set xs then rev (remdups (rev xs)) else rev (remdups (rev xs)) @ [k])"
  by simp

lemma dir_dict_loop_keys:
  "dir_dict_loop d0 du_output = Inr d \<Longrightarrow> map fst d0 = rev (remdups (rev seen)) \<Longrightarrow>
   map fst d = rev (remdups (rev (seen @ scan_paths du_output)))"
proof (induction du_output arbitrary: d0 seen)
  case Nil
  then show ?case by (simp add: scan_paths_def)
next
  case (Cons line rest)
  show ?case
  proof (cases "\<exists>sz directory. split_on TAB line = [sz, directory]")
    case True
    then obtain sz directory where sp: "split_on TAB line = [sz, directory]" by blast
    with Cons.prems(1) obtain m where "py_int sz = Some m"
      and run: "dir_dict_loop (dict_setitem d0 directory m) rest = Inr d"
      by (auto split: option.splits)
    have "set (map fst d0) = set seen" using Cons.prems(2) by simp
    then have mem: "directory \<in> fst ` set d0 \<longleftrightarrow> directory \<in> set seen" by simp
    have "map fst (dict_setitem d0 directory m) = rev (remdups (rev (seen @ [directory])))"
      unfolding first_occurrences_snoc keys_dict_setitem mem Cons.prems(2) ..
    from Cons.IH[OF run this] sp show ?thesis
      by (simp add: scan_paths_def)
  next
    case False
    with Cons.prems(1) have run: "dir_dict_loop d0 rest = Inr d"
      by (auto split: list.splits)
    from False have "scan_paths (line # rest) = scan_paths rest"
      by (auto simp: scan_paths_def split: list.splits)
    with Cons.IH[OF run Cons.prems(2)] show ?thesis by simp
  qed
qed

lemma create_dir_dict_insertion_order:
  "create_dir_dict du_output = Inr d \<Longrightarrow> map fst d = rev (remdups (rev (scan_paths du_output)))"
  using dir_dict_loop_keys[of "[]" du_output d "[]"] by (simp add: create_dir_dict_def)

lemma sorted_reverse_descending:
  "sorted_wrt (\<lambda>x y. key x \<ge> key y) (sorted_reverse key xs)"
proof -
  have "sorted (map key (sort_key key (rev xs)))" by (rule sorted_sort_key)
  then have "sorted_wrt (\<lambda>x y. key x \<le> key y) (sort_key key (rev xs))"
    by (simp only: sorted_wrt_map)
  then show ?thesis
    by (simp add: sorted_reverse_def sorted_wrt_rev)
qed

lemma sorted_reverse_stable:
  "filter (\<lambda>x. key x = v) (sorted_reverse key xs) = filter (\<lambda>x. key x = v) xs"
proof -
  have "filter (\<lambda>x. key x = v) (sorted_reverse key xs)
          = rev (filter (\<lambda>x. key x = v) (sort_key key (rev xs)))"
    by (simp add: sorted_reverse_def rev_filter)
  also have "\<dots> = rev (filter (\<lambda>x. key x = v) (rev xs))"
    by (simp only: sort_key_stable)
  also have "\<dots> = filter (\<lambda>x. key x = v) xs"
    by (simp add: rev_filter)
  finally show ?thesis .
qed

lemma set_sorted_reverse: "set (sorted_reverse key xs) = set xs"
  by (simp add: sorted_reverse_def)

lemma print_rows_lines:
  "print_rows a t rows out = (None, out') \<Longrightarrow>
   \<exists>lines. out' = out @ lines \<and> map Inr lines = map (\<lambda>(p, sz). report_line a t p sz) rows"
proof (induction rows arbitrary: out)
  case Nil
  then show ?case by simp
next
  case (Cons row rows)
  obtain p sz where row: "row = (p, sz)" by (cases row)
  with Cons.prems obtain line where line: "report_line a t p sz = Inr line"
    and run: "print_rows a t rows (out @ [line]) = (None, out')"
    by (auto split: sum.splits)
  from Cons.IH[OF run] obtain lines where "out' = (out @ [line]) @ lines"
    and "map Inr lines = map (\<lambda>(p, sz). report_line a t p sz) rows" by blast
  with row line show ?case
    by (intro exI[of _ "line # lines"]) simp
qed

lemma print_rows_error:
  "print_rows a t rows out = (Some e, out') \<Longrightarrow>
   \<exists>(p, sz)\<in>set rows. report_line a t p sz = Inl e"
proof (induction rows arbitrary: out)
  case Nil
  then show ?case by simp
next
  case (Cons row rows)
  obtain p sz where row: "row = (p, sz)" by (cases row)
  show ?case
  proof (cases "report_line a t p sz")
    case (Inl e')
    with Cons.prems row show ?thesis by auto
  next
    case (Inr line)
    with Cons.prems row have "print_rows a t rows (out @ [line]) = (Some e, out')" by simp
    from Cons.IH[OF this] show ?thesis by auto
  qed
qed


lemma percent_of_no_zero_division: "percent_of sz t \<noteq> Inl ZeroDivisionError"
  by (simp add: percent_of_def truediv_def)

lemma percent_of_value:
  "percent_of sz t = Inr (if t > 0 then of_int sz / of_int t * 100 else 0)"
  by (simp add: percent_of_def truediv_def)


lemma main_report_ending:
  assumes "dict_pop d (target a) 0 = (t, remaining)"
  shows "d = [] \<and> ending (main_report a d) = SysExit 0
       \<or> d \<noteq> [] \<and> ending (main_report a d) = Returned
           \<and> map Inr (butlast (stdout (main_report a d)))
               = map (\<lambda>(p, sz). report_line a t p sz) (sorted_reverse snd remaining)
       \<or> d \<noteq> [] \<and> (\<exists>e. ending (main_report a d) = Uncaught e
           \<and> (\<exists>(p, sz)\<in>set remaining. report_line a t p sz = Inl e))"
proof (cases "d = []")
  case True
  then show ?thesis by (simp add: main_report_def)
next
  case False
  obtain r out where pr: "print_rows a t (sorted_reverse snd remaining) [] = (r, out)"
    by (cases "print_rows a t (sorted_reverse snd remaining) []")
  show ?thesis
  proof (cases r)
    case None
    with print_rows_lines[of a t "sorted_reverse snd remaining" "[]" out] pr
    have "map Inr out = map (\<lambda>(p, sz). report_line a t p sz) (sorted_reverse snd remaining)"
      by auto
    with False assms pr None show ?thesis
      by (simp add: main_report_def Let_def)
  next
    case (Some e)
    with print_rows_error[of a t "sorted_reverse snd remaining" "[]" e out] pr
    have "\<exists>(p, sz)\<in>set remaining. report_line a t p sz = Inl e"
      by (simp add: set_sorted_reverse)
    with False assms pr Some show ?thesis
      by (simp add: main_report_def Let_def)
  qed
qed

text \<open>
  C7. The rows of the report are the entries left after the target's entry is removed,
  sorted by size, descending; entries of equal size keep the order they have in the
  dictionary (its insertion order, which the removal of the target's entry does not
  change, and which for a dictionary built by \<^verbatim>\<open>create_dir_dict\<close> is the order in which
  the paths first occur in the scan output). When the run returns, the lines printed
  before the total line are the lines of these rows, in this order.
\<close>

theorem report_rows_sorted_stable:
  assumes "dict_pop d (target a) 0 = (total_kb, remaining)"
  shows "sorted_wrt (\<lambda>x y. snd x \<ge> snd y) (sorted_reverse snd remaining)
       \<and> (\<forall>v. filter (\<lambda>x. snd x = v) (sorted_reverse snd remaining)
                = filter (\<lambda>x. snd x = v) remaining)
       \<and> (distinct (map fst d) \<longrightarrow> remaining = filter (\<lambda>x. fst x \<noteq> target a) d)
       \<and> (\<forall>du_output. create_dir_dict du_output = Inr d \<longrightarrow>
            distinct (map fst d) \<and> map fst d = rev (remdups (rev (scan_paths du_output))))
       \<and> (ending (main_report a d) = Returned \<longrightarrow>
            map Inr (butlast (stdout (main_report a d)))
              = map (\<lambda>(p, sz). report_line a total_kb p sz) (sorted_reverse snd remaining))"
proof -
  have "remaining = filter (\<lambda>x. fst x \<noteq> target a) d" if "distinct (map fst d)"
    using dict_pop_distinct[OF that, of "target a" 0] assms by simp
  moreover have "ending (main_report a d) = Returned \<longrightarrow>
            map Inr (butlast (stdout (main_report a d)))
              = map (\<lambda>(p, sz). report_line a total_kb p sz) (sorted_reverse snd remaining)"
    using main_report_ending[OF assms] by auto
  ultimately show ?thesis
    using sorted_reverse_descending[of snd remaining] sorted_reverse_stable[of snd _ remaining]
      create_dir_dict_distinct[of _ d] create_dir_dict_insertion_order[of _ d]
    by blast
qed
theorem report_rows_sorted_stable_witness:
  "dict_pop [(''/a'', 10), (''/a/x'', 5), (''/a/y'', 7), (''/a/z'', 5)] ''/a'' (0 :: int)
     = (10, [(''/a/x'', 5), (''/a/y'', 7), (''/a/z'', 5)])
   \<and> sorted_reverse snd [(''/a/x'', 5 :: int), (''/a/y'', 7), (''/a/z'', 5)]
       = [(''/a/y'', 7), (''/a/x'', 5), (''/a/z'', 5)]
   \<and> sorted_wrt (\<lambda>x y. snd x \<ge> snd y)
        (sorted_reverse snd [(''/a/x'', 5 :: int), (''/a/y'', 7), (''/a/z'', 5)])"
proof -
  let ?a = "\<lparr>target = ''/a'', human_readable_flag = False, length_arg = 20\<rparr>"
  have pop: "dict_pop [(''/a'', 10), (''/a/x'', 5), (''/a/y'', 7), (''/a/z'', 5)] (target ?a) (0 :: int)
               = (10, [(''/a/x'', 5), (''/a/y'', 7), (''/a/z'', 5)])"
    by simp
  have rows: "sorted_reverse snd [(''/a/x'', 5 :: int), (''/a/y'', 7), (''/a/z'', 5)]
                = [(''/a/y'', 7), (''/a/x'', 5), (''/a/z'', 5)]"
    by (simp add: sorted_reverse_def)
  from report_rows_sorted_stable[OF pop]
  have "sorted_wrt (\<lambda>x y. snd x \<ge> snd y)
          (sorted_reverse snd [(''/a/x'', 5 :: int), (''/a/y'', 7), (''/a/z'', 5)])"
    by blast
  with pop rows show ?thesis
    by simp
qed

text \<open>
  C8. When the target's path is no key of the dictionary, the total is the default 0 and
  the dictionary is left as it is. Whenever the total is 0, the percentage of every row
  is 0, every row is printed, and the run does not end with an uncaught exception. No
  percentage raises \<^verbatim>\<open>ZeroDivisionError\<close>, whatever the total.
\<close>

theorem report_total_zero:
  "(target a \<notin> fst ` set d \<longrightarrow> dict_pop d (target a) 0 = (0, d))
   \<and> (\<forall>remaining. dict_pop d (target a) 0 = (0, remaining) \<longrightarrow>
        (\<forall>(p, sz)\<in>set (sorted_reverse snd remaining).
            percent_of sz 0 = Inr 0 \<and> (\<exists>line. report_line a 0 p sz = Inr line))
        \<and> (\<forall>e. ending (main_report a d) \<noteq> Uncaught e))
   \<and> (\<forall>sz total_size. percent_of sz total_size \<noteq> Inl ZeroDivisionError)"
proof -
  have line: "\<exists>line. report_line a 0 p sz = Inr line" for p sz
    by (simp add: report_line_def percent_of_value percent_to_graph_def Let_def)
  have no_error: "report_line a 0 p sz \<noteq> Inl e" for p sz e
    using line[of p sz] by auto
  have "ending (main_report a d) \<noteq> Uncaught e"
    if "dict_pop d (target a) 0 = (0, remaining)" for remaining e
    using main_report_ending[OF that] no_error by fastforce
  with line show ?thesis
    by (auto simp: dict_pop_absent percent_of_value percent_of_no_zero_division)
qed
theorem report_total_zero_witness:
  "''/a'' \<notin> fst ` set [(''/b/x'', 5 :: int), (''/b/y'', 7)]
   \<and> dict_pop [(''/b/x'', 5), (''/b/y'', 7)] ''/a'' (0 :: int) = (0, [(''/b/x'', 5), (''/b/y'', 7)])
   \<and> (\<forall>e. ending (main_report \<lparr>target = ''/a'', human_readable_flag = False, length_arg = 20\<rparr>
                    [(''/b/x'', 5), (''/b/y'', 7)]) \<noteq> Uncaught e)"
proof -
  let ?a = "\<lparr>target = ''/a'', human_readable_flag = False, length_arg = 20\<rparr>"
  have absent: "target ?a \<notin> fst ` set [(''/b/x'', 5 :: int), (''/b/y'', 7)]"
    by simp
  from report_total_zero[of ?a "[(''/b/x'', 5), (''/b/y'', 7)]"] absent
  have pop: "dict_pop [(''/b/x'', 5), (''/b/y'', 7)] (target ?a) (0 :: int)
               = (0, [(''/b/x'', 5), (''/b/y'', 7)])"
    by blast
  with report_total_zero[of ?a "[(''/b/x'', 5), (''/b/y'', 7)]"]
  have "\<forall>e. ending (main_report ?a [(''/b/x'', 5), (''/b/y'', 7)]) \<noteq> Uncaught e"
    by blast
  with absent pop show ?thesis
    by simp
qed

text \<open>
  The emptiness test of \<^verbatim>\<open>main\<close> (line 104) comes before the target's entry is removed
  (line 109): the run ends with the message \<^verbatim>\<open>No subdirectories found.\<close> exactly when the
  dictionary built from the output of \<^verbatim>\<open>du\<close> is empty.
\<close>

lemma main_report_no_subdirectories_iff:
  "ending (main_report a d) = SysExit 0 \<longleftrightarrow> d = []"
  using main_report_ending[of d a "fst (dict_pop d (target a) 0)" "snd (dict_pop d (target a) 0)"]
  by auto
text \<open>
  C1. A dictionary that holds the target's entry only is empty once that entry is
  removed, yet the run does not signal that there are no subdirectories: for the target
  \<^verbatim>\<open>/a\<close> and the output \<^verbatim>\<open>100<TAB>/a\<close> of \<^verbatim>\<open>du\<close>, \<^verbatim>\<open>main\<close> prints the total line on
  standard output, nothing on standard error, and returns.
\<close>

theorem main_target_only:
  "main \<lparr>target = ''/a'', human_readable_flag = False, length_arg = 20\<rparr> True
        (Inr (''100'' @ [TAB] @ ''/a'' @ [NEWLINE]))
     = \<lparr>ending = Returned, stdout = [''Total: 100K   /a''], stderr = []\<rparr>"
  by code_simp

end
